theory Spec2Isabelle
  imports Main
begin

section \<open>Strings: normalisation, patterns, code generation\<close>

text \<open>
  An email is a JavaScript string, that is a list of UTF-16 code units; \<open>utf16\<close> writes
  one from ASCII text. The code and the session id are kept as byte strings: the
  handlers only compare them, test them for emptiness and, for the code, for five ASCII
  digits, and all three come out alike on bytes and on code units.
\<close>

type_synonym ustring = "nat list"

definition utf16 :: "string \<Rightarrow> ustring" where
  "utf16 s = map of_char s"

text \<open>
  The white space of ECMAScript, which \<^verbatim>\<open>trim\<close> strips and \<^verbatim>\<open>\s\<close> matches: TAB, LF,
  VT, FF, CR, SPACE, NO-BREAK SPACE, U+1680, U+2000 to U+200A, LINE and PARAGRAPH
  SEPARATOR, U+202F, U+205F, U+3000 and U+FEFF. All are single code units.
\<close>

definition is_space :: "nat \<Rightarrow> bool" where
  "is_space u =
     (u \<in> set [0x09, 0x0A, 0x0B, 0x0C, 0x0D, 0x20, 0xA0, 0x1680, 0x2000, 0x2001, 0x2002,
               0x2003, 0x2004, 0x2005, 0x2006, 0x2007, 0x2008, 0x2009, 0x200A, 0x2028,
               0x2029, 0x202F, 0x205F, 0x3000, 0xFEFF])"

definition trim :: "ustring \<Rightarrow> ustring" where
  "trim s = rev (dropWhile is_space (rev (dropWhile is_space s)))"

text \<open>
  \<^verbatim>\<open>/^[^\s@]+@[^\s@]+\.[^\s@]+$/\<close>, matched on code units: a non-empty local part, one
  \<^verbatim>\<open>@\<close> (0x40), and a domain that has a dot (0x2E) with at least one unit on each side;
  no white space and no second \<^verbatim>\<open>@\<close> anywhere.
\<close>

definition plain_char :: "nat \<Rightarrow> bool" where
  "plain_char u = (\<not> is_space u \<and> u \<noteq> 0x40)"

definition emailRegex :: "ustring \<Rightarrow> bool" where
  "emailRegex s =
     (let local_part = takeWhile (\<lambda>u. u \<noteq> 0x40) s;
          rest = dropWhile (\<lambda>u. u \<noteq> 0x40) s
      in local_part \<noteq> [] \<and> list_all plain_char local_part \<and>
         (case rest of
            [] \<Rightarrow> False
          | _ # domain \<Rightarrow> list_all plain_char domain \<and> 0x2E \<in> set (butlast (tl domain))))"

text \<open>\<^verbatim>\<open>/^\d{5}$/\<close>; \<^verbatim>\<open>\d\<close> is the ten ASCII digits.\<close>

definition is_digit :: "char \<Rightarrow> bool" where
  "is_digit c = (c \<in> set ''0123456789'')"

definition code_format :: "string \<Rightarrow> bool" where
  "code_format code = (length code = 5 \<and> list_all is_digit code)"

text \<open>\<^verbatim>\<open>s.split(',')\<close> (the comma is 0x2C): the empty string splits into one empty piece.\<close>

fun split_comma :: "ustring \<Rightarrow> ustring list" where
  "split_comma [] = [[]]"
| "split_comma (u # us) =
     (if u = 0x2C then [] # split_comma us
      else (case split_comma us of
              [] \<Rightarrow> [[u]]
            | w # ws \<Rightarrow> (u # w) # ws))"

text \<open>Decimal rendering of a natural number, \<^verbatim>\<open>n.toString()\<close>.\<close>

definition digit_char :: "nat \<Rightarrow> char" where
  "digit_char d = ''0123456789'' ! d"

function show_nat :: "nat \<Rightarrow> string" where
  "show_nat n = (if n < 10 then [digit_char n] else show_nat (n div 10) @ [digit_char (n mod 10)])"
  by pat_completeness auto
termination
  by (relation "measure id") auto

declare show_nat.simps [simp del]

text \<open>
  \<^verbatim>\<open>Math.floor(10000 + Math.random() * 90000).toString()\<close>. The random draw enters as
  the natural number \<open>rnd = \<lfloor>Math.random() \<sqdot> 90000\<rfloor>\<close>, which lies in \<open>{0..89999}\<close>.
\<close>

definition generate_code :: "nat \<Rightarrow> string" where
  "generate_code rnd = show_nat (10000 + rnd)"

section \<open>Data model\<close>

text \<open>
  Times are time values of \<^verbatim>\<open>Date\<close>: milliseconds since the epoch, as natural numbers
  (instants before 1970 are not represented). The two tables are lists of rows in
  storage order.
\<close>

text \<open>
  Modelled from the spec: the declaration of the tables \<^verbatim>\<open>verification_codes\<close> and
  \<^verbatim>\<open>sessions\<close>, which is not among the sources (spec section 3). A code row has a
  key \<open>id\<close> and a \<open>created_at\<close>, both filled in by the store on insert (the handler
  sets neither); \<open>used_at\<close> and \<open>last_accessed\<close> start empty.
\<close>

record vcode =
  vc_id :: nat
  vc_email :: ustring
  vc_code :: string
  vc_created_at :: nat
  vc_expires_at :: nat
  vc_used :: bool
  vc_used_at :: "nat option"

record session =
  session_id :: string
  s_email :: ustring
  s_expires_at :: nat
  last_accessed :: "nat option"

text \<open>
  The persistent state, and with it the mails the transport has accepted (recipient and
  code), so that "nothing happened" can be stated.
\<close>

record state =
  verification_codes :: "vcode list"
  sessions :: "session list"
  outbox :: "(ustring \<times> string) list"

text \<open>
  What \<^verbatim>\<open>await resend.emails.send(...)\<close>, with the \<^verbatim>\<open>new Resend(...)\<close> before it,
  can do: deliver; resolve to a result that reports an error, which the handler never
  reads; or throw, which the handler catches.
\<close>

datatype mail_outcome = Delivered | Refused | Threw

text \<open>
  What a single invocation finds around it:
  \<^item> the environment variable \<^verbatim>\<open>APPROVED_RECRUITER_EMAILS\<close> (absent or a string);
  \<^item> \<^verbatim>\<open>String.prototype.toLowerCase\<close> of the runtime. Unicode case conversion is not
    spelled out here: the handlers are verified for every such function;
  \<^item> the local time zone of the runtime, as ECMAScript's \<open>LocalTZA(t, isUTC)\<close>: the
    offset of local time from UTC in milliseconds, at the instant \<open>t\<close> when \<open>isUTC\<close>
    holds and for the local time value \<open>t\<close> otherwise;
  \<^item> what \<^verbatim>\<open>new Date()\<close> yields when the handler reads the clock a second and a third
    time (the first reading is the handler's argument \<open>now\<close>);
  \<^item> for each kind of store operation whether it fails during this invocation (a failed
    write leaves the table as it was), and what the mail transport does.
\<close>

record env =
  approved_recruiter_emails :: "ustring option"
  toLowerCase :: "ustring \<Rightarrow> ustring"
  LocalTZA :: "int \<Rightarrow> bool \<Rightarrow> int"
  second_read :: nat
  third_read :: nat
  fetch_fails :: bool
  update_fails :: bool
  insert_fails :: bool
  delete_fails :: bool
  email_send :: mail_outcome

text \<open>\<^verbatim>\<open>email.trim().toLowerCase()\<close>\<close>

definition normalize_email :: "env \<Rightarrow> ustring \<Rightarrow> ustring" where
  "normalize_email e email = toLowerCase e (trim email)"

text \<open>
  \<^verbatim>\<open>d.setMinutes(d.getMinutes() + 10)\<close> and \<^verbatim>\<open>d.setHours(d.getHours() + 24)\<close> work on
  local time. By ECMAScript (\<^verbatim>\<open>Date.prototype.setMinutes\<close>, \<open>MakeTime\<close>, \<open>MakeDate\<close>)
  the new time value is \<open>UTC(LocalTime(t) + d)\<close> for \<open>d\<close> the milliseconds added, where
  \<open>LocalTime(t) = t + LocalTZA(t, true)\<close> and \<open>UTC(t) = t - LocalTZA(t, false)\<close>. In a
  zone whose offset never changes this is \<open>t + d\<close>.
\<close>

definition LocalTime :: "env \<Rightarrow> int \<Rightarrow> int" where
  "LocalTime e t = t + LocalTZA e t True"

definition UTC :: "env \<Rightarrow> int \<Rightarrow> int" where
  "UTC e t = t - LocalTZA e t False"

definition plus_local :: "env \<Rightarrow> nat \<Rightarrow> nat \<Rightarrow> nat" where
  "plus_local e t d = nat (UTC e (LocalTime e (int t) + int d))"

text \<open>
  The request: the HTTP method and the parsed JSON body; \<open>None\<close> is a body on which
  \<^verbatim>\<open>JSON.parse\<close> or the destructuring throws. A field is \<open>None\<close> when it is missing;
  fields hold strings (other JSON values are outside the model).
\<close>

record fields =
  f_email :: "ustring option"
  f_code :: "string option"
  f_sessionId :: "string option"

record event =
  httpMethod :: string
  body :: "fields option"

text \<open>
  The JSON bodies of the answers:
  \<^item> \<open>Error m\<close> is \<^verbatim>\<open>{error: m}\<close>;
  \<^item> \<open>ErrorDetails m\<close> is \<^verbatim>\<open>{error: m, details: ...}\<close>, the body of the \<^verbatim>\<open>catch\<close>
    blocks (the text of the exception is left out);
  \<^item> \<open>CodeSent m\<close> is \<^verbatim>\<open>{success: true, message: m}\<close> and \<open>CodeSentWarning w\<close> is
    \<^verbatim>\<open>{success: true, warning: w}\<close>;
  \<^item> \<open>Verified sid t\<close> is \<^verbatim>\<open>{success: true, sessionId: sid, expiresAt: t}\<close>;
  \<^item> \<open>SessionInvalid r\<close> is \<^verbatim>\<open>{valid: false, reason: r}\<close> and \<open>SessionValid e t\<close> is
    \<^verbatim>\<open>{valid: true, email: e, expiresAt: t}\<close>.
\<close>

datatype payload =
    Error string
  | ErrorDetails string
  | CodeSent string
  | CodeSentWarning string
  | Verified string nat
  | SessionInvalid string
  | SessionValid ustring nat

record response =
  statusCode :: nat
  payload :: payload

definition reply :: "nat \<Rightarrow> payload \<Rightarrow> response" where
  "reply n p = \<lparr>statusCode = n, payload = p\<rparr>"

text \<open>The \<^verbatim>\<open>sessionId\<close> member of a response body, when it has one.\<close>

fun sessionId_of :: "response \<Rightarrow> string option" where
  "sessionId_of r = (case payload r of Verified sid _ \<Rightarrow> Some sid | _ \<Rightarrow> None)"

text \<open>JavaScript truthiness of an optional string: missing and empty are falsy.\<close>

fun truthy :: "'a list option \<Rightarrow> bool" where
  "truthy None = False"
| "truthy (Some s) = (s \<noteq> [])"

section \<open>Store operations\<close>

definition ten_minutes :: nat where
  "ten_minutes = 600000"

definition one_day :: nat where
  "one_day = 86400000"

text \<open>
  Modelled from the spec: the column defaults of \<^verbatim>\<open>verification_codes\<close>, whose
  declaration is not among the sources. The store gives a new row an \<open>id\<close> no other row
  has, and the instant of the insert as \<open>created_at\<close> (spec section 3); that instant is
  taken to be the handler's reading \<open>now\<close>.
\<close>

definition next_id :: "vcode list \<Rightarrow> nat" where
  "next_id rows = Suc (fold max (map vc_id rows) 0)"

text \<open>
  \<^verbatim>\<open>from('verification_codes').insert({email, code, expires_at, used: false})\<close>
\<close>

definition insert_code :: "nat \<Rightarrow> ustring \<Rightarrow> string \<Rightarrow> nat \<Rightarrow> vcode list \<Rightarrow> vcode list" where
  "insert_code now email code expires rows =
     rows @ [\<lparr>vc_id = next_id rows, vc_email = email, vc_code = code, vc_created_at = now,
              vc_expires_at = expires, vc_used = False, vc_used_at = None\<rparr>]"

text \<open>
  \<^verbatim>\<open>.eq('email', e).eq('code', c).eq('used', false)\<close>
\<close>

definition matches :: "ustring \<Rightarrow> string \<Rightarrow> vcode \<Rightarrow> bool" where
  "matches email code r = (vc_email r = email \<and> vc_code r = code \<and> \<not> vc_used r)"

text \<open>
  \<^verbatim>\<open>.order('created_at', { ascending: false }).limit(1).single()\<close>: the row with the
  greatest \<open>created_at\<close>; among rows created at the same instant the first in storage
  order. No row at all is the error of \<^verbatim>\<open>single()\<close>.
\<close>

fun newest_of :: "vcode \<Rightarrow> vcode list \<Rightarrow> vcode" where
  "newest_of best [] = best"
| "newest_of best (r # rs) =
     newest_of (if vc_created_at best < vc_created_at r then r else best) rs"

definition newest :: "vcode list \<Rightarrow> vcode option" where
  "newest rows = (case rows of [] \<Rightarrow> None | r # rs \<Rightarrow> Some (newest_of r rs))"

text \<open>
  \<^verbatim>\<open>.update({ used: true, used_at: ... }).eq('id', id)\<close> and
  \<^verbatim>\<open>.update({ used: true }).eq('id', id)\<close>: every row with that id, whatever its
  \<open>used\<close> flag.
\<close>

definition set_used_at :: "nat \<Rightarrow> nat \<Rightarrow> vcode list \<Rightarrow> vcode list" where
  "set_used_at i t rows =
     map (\<lambda>r. if vc_id r = i then r\<lparr>vc_used := True, vc_used_at := Some t\<rparr> else r) rows"

definition set_used :: "nat \<Rightarrow> vcode list \<Rightarrow> vcode list" where
  "set_used i rows = map (\<lambda>r. if vc_id r = i then r\<lparr>vc_used := True\<rparr> else r) rows"

text \<open>
  \<^verbatim>\<open>from('sessions').select('*').eq('session_id', sid).single()\<close>: exactly one row,
  or an error.
\<close>

definition single_session :: "string \<Rightarrow> session list \<Rightarrow> session option" where
  "single_session sid rows =
     (case filter (\<lambda>s. session_id s = sid) rows of [s] \<Rightarrow> Some s | _ \<Rightarrow> None)"

section \<open>send-code\<close>

text \<open>
  \<^verbatim>\<open>process.env.APPROVED_RECRUITER_EMAILS?.split(',').map(e => e.trim().toLowerCase()) || []\<close>
\<close>

definition approvedEmails :: "env \<Rightarrow> ustring list" where
  "approvedEmails e =
     (case approved_recruiter_emails e of
        None \<Rightarrow> []
      | Some s \<Rightarrow> map (normalize_email e) (split_comma s))"

text \<open>
  The handler. \<open>now\<close> is the \<^verbatim>\<open>new Date()\<close> of line 301. The mail is sent inside
  \<^verbatim>\<open>try\<close>: only when the call throws does the handler answer with the warning; what
  the call resolves to is not looked at.
\<close>

definition send_code :: "env \<Rightarrow> nat \<Rightarrow> nat \<Rightarrow> event \<Rightarrow> state \<Rightarrow> state \<times> response" where
  "send_code e now rnd ev st =
     (if httpMethod ev \<noteq> ''POST'' then (st, reply 405 (Error ''Method not allowed''))
      else case body ev of
        None \<Rightarrow> (st, reply 500 (ErrorDetails ''Failed to process request''))
      | Some b \<Rightarrow>
          if \<not> truthy (f_email b) then (st, reply 400 (Error ''Email is required''))
          else
            let normalizedEmail = normalize_email e (the (f_email b)) in
            if \<not> emailRegex normalizedEmail then
              (st, reply 400 (Error ''Invalid email format''))
            else if normalizedEmail \<notin> set (approvedEmails e) then
              (st, reply 403 (Error ''Your email is not authorized to access this portal. Please contact your administrator.''))
            else
              let code = generate_code rnd;
                  expiresAt = plus_local e now ten_minutes in
              if insert_fails e then
                (st, reply 500 (Error ''Failed to generate verification code''))
              else
                let st1 = st\<lparr>verification_codes :=
                               insert_code now normalizedEmail code expiresAt (verification_codes st)\<rparr> in
                (case email_send e of
                   Threw \<Rightarrow>
                     (st1, reply 200 (CodeSentWarning ''Code saved but email delivery may be delayed. Please check your spam folder or try again in a moment.''))
                 | Refused \<Rightarrow>
                     (st1, reply 200 (CodeSent ''Verification code sent to your email''))
                 | Delivered \<Rightarrow>
                     (st1\<lparr>outbox := outbox st1 @ [(normalizedEmail, code)]\<rparr>,
                      reply 200 (CodeSent ''Verification code sent to your email''))))"

section \<open>verify-code\<close>

text \<open>The query of lines 52 to 60 and the test of line 62.\<close>

definition find_code :: "env \<Rightarrow> ustring \<Rightarrow> string \<Rightarrow> state \<Rightarrow> vcode option" where
  "find_code e email code st =
     (if fetch_fails e then None
      else newest (filter (matches email code) (verification_codes st)))"

text \<open>
  The update of lines 90 to 93; \<open>None\<close> is \<^verbatim>\<open>updateError\<close>. \<open>used_at\<close> is the
  \<^verbatim>\<open>new Date()\<close> of line 92, the second reading of the clock.
\<close>

definition mark_used :: "env \<Rightarrow> vcode \<Rightarrow> state \<Rightarrow> state option" where
  "mark_used e v st =
     (if update_fails e then None
      else Some (st\<lparr>verification_codes :=
                      set_used_at (vc_id v) (second_read e) (verification_codes st)\<rparr>))"

text \<open>The update of lines 78 to 81, whose result the handler does not look at.\<close>

definition mark_expired :: "env \<Rightarrow> vcode \<Rightarrow> state \<Rightarrow> state" where
  "mark_expired e v st =
     (if update_fails e then st
      else st\<lparr>verification_codes := set_used (vc_id v) (verification_codes st)\<rparr>)"

text \<open>
  Lines 103 to 136: the new session and the answer. \<open>sessionExpiresAt\<close> starts as the
  \<^verbatim>\<open>new Date()\<close> of line 107, the third reading of the clock, and is moved on by
  \<^verbatim>\<open>setHours(getHours() + 24)\<close>.
\<close>

definition create_session :: "env \<Rightarrow> string \<Rightarrow> ustring \<Rightarrow> state \<Rightarrow> state \<times> response" where
  "create_session e sessionId email st =
     (let sessionExpiresAt = plus_local e (third_read e) one_day in
      if insert_fails e then (st, reply 500 (Error ''Failed to create session''))
      else
        (st\<lparr>sessions := sessions st @
               [\<lparr>session_id = sessionId, s_email = email, s_expires_at = sessionExpiresAt,
                 last_accessed = None\<rparr>]\<rparr>,
         reply 200 (Verified sessionId sessionExpiresAt)))"

text \<open>
  Lines 70 to 136, once a row has been found. \<open>now\<close> is the \<^verbatim>\<open>new Date()\<close> of line 71.
\<close>

definition redeem :: "env \<Rightarrow> nat \<Rightarrow> string \<Rightarrow> ustring \<Rightarrow> vcode \<Rightarrow> state \<Rightarrow> state \<times> response" where
  "redeem e now sessionId email v st =
     (if vc_expires_at v < now then
        (mark_expired e v st,
         reply 401 (Error ''Verification code has expired. Please request a new one.''))
      else case mark_used e v st of
        None \<Rightarrow> (st, reply 500 (Error ''Failed to verify code''))
      | Some st1 \<Rightarrow> create_session e sessionId email st1)"

text \<open>
  The handler. \<open>sessionId\<close> is the value of \<^verbatim>\<open>crypto.randomBytes(32).toString('hex')\<close>
  in this invocation.
\<close>

definition verify_code :: "env \<Rightarrow> nat \<Rightarrow> string \<Rightarrow> event \<Rightarrow> state \<Rightarrow> state \<times> response" where
  "verify_code e now sessionId ev st =
     (if httpMethod ev \<noteq> ''POST'' then (st, reply 405 (Error ''Method not allowed''))
      else case body ev of
        None \<Rightarrow> (st, reply 500 (ErrorDetails ''Failed to process request''))
      | Some b \<Rightarrow>
          if \<not> truthy (f_email b) \<or> \<not> truthy (f_code b) then
            (st, reply 400 (Error ''Email and code are required''))
          else
            let normalizedEmail = normalize_email e (the (f_email b));
                code = the (f_code b) in
            if \<not> code_format code then (st, reply 400 (Error ''Invalid code format''))
            else
              (case find_code e normalizedEmail code st of
                 None \<Rightarrow> (st, reply 401 (Error ''Invalid verification code''))
               | Some v \<Rightarrow> redeem e now sessionId normalizedEmail v st))"

section \<open>check-session\<close>

text \<open>
  \<open>now\<close> is the \<^verbatim>\<open>new Date()\<close> of line 187; \<open>last_accessed\<close> is that of line 208, the
  second reading of the clock.
\<close>

definition check_session :: "env \<Rightarrow> nat \<Rightarrow> event \<Rightarrow> state \<Rightarrow> state \<times> response" where
  "check_session e now ev st =
     (if httpMethod ev \<noteq> ''POST'' then (st, reply 405 (Error ''Method not allowed''))
      else case body ev of
        None \<Rightarrow> (st, reply 500 (ErrorDetails ''Failed to check session''))
      | Some b \<Rightarrow>
          if \<not> truthy (f_sessionId b) then (st, reply 400 (Error ''Session ID is required''))
          else
            let sessionId = the (f_sessionId b) in
            (case (if fetch_fails e then None else single_session sessionId (sessions st)) of
               None \<Rightarrow> (st, reply 200 (SessionInvalid ''Session not found''))
             | Some sessionData \<Rightarrow>
                 if s_expires_at sessionData < now then
                   ((if delete_fails e then st
                     else st\<lparr>sessions := filter (\<lambda>s. session_id s \<noteq> sessionId) (sessions st)\<rparr>),
                    reply 200 (SessionInvalid ''Session expired''))
                 else
                   ((if update_fails e then st
                     else st\<lparr>sessions :=
                             map (\<lambda>s. if session_id s = sessionId
                                      then s\<lparr>last_accessed := Some (second_read e)\<rparr> else s)
                                 (sessions st)\<rparr>),
                    reply 200 (SessionValid (s_email sessionData) (s_expires_at sessionData)))))"

section \<open>Requests and interleaved invocations\<close>

text \<open>The request bodies of the three endpoints, sent with POST.\<close>

definition post_send :: "ustring \<Rightarrow> event" where
  "post_send email =
     \<lparr>httpMethod = ''POST'',
      body = Some \<lparr>f_email = Some email, f_code = None, f_sessionId = None\<rparr>\<rparr>"

definition post_verify :: "ustring \<Rightarrow> string \<Rightarrow> event" where
  "post_verify email code =
     \<lparr>httpMethod = ''POST'',
      body = Some \<lparr>f_email = Some email, f_code = Some code, f_sessionId = None\<rparr>\<rparr>"

definition post_check :: "string \<Rightarrow> event" where
  "post_check sessionId =
     \<lparr>httpMethod = ''POST'',
      body = Some \<lparr>f_email = None, f_code = None, f_sessionId = Some sessionId\<rparr>\<rparr>"

text \<open>
  An invocation of verify-code that has passed the checks of lines 16 to 43 awaits the
  store three times: the lookup, the update, the insert. Between two awaits other
  invocations may run. \<open>pc\<close> is the place an invocation has reached, \<open>step\<close> runs
  it up to its next await, and \<open>run\<close> interleaves two invocations on one store as a
  schedule says (\<open>True\<close>: the first moves, \<open>False\<close>: the second). Three steps of one
  invocation are the handler (lemma \<open>handler_is_three_steps\<close>).
\<close>

datatype pc = AtLookup | AtUpdate vcode | AtInsert | Finished response

record call =
  c_env :: env
  c_now :: nat
  c_sessionId :: string
  c_email :: ustring
  c_code :: string

fun step :: "call \<Rightarrow> pc \<times> state \<Rightarrow> pc \<times> state" where
  "step c (AtLookup, st) =
     (case find_code (c_env c) (c_email c) (c_code c) st of
        None \<Rightarrow> (Finished (reply 401 (Error ''Invalid verification code'')), st)
      | Some v \<Rightarrow> (AtUpdate v, st))"
| "step c (AtUpdate v, st) =
     (if vc_expires_at v < c_now c then
        (Finished (reply 401 (Error ''Verification code has expired. Please request a new one.'')),
         mark_expired (c_env c) v st)
      else case mark_used (c_env c) v st of
        None \<Rightarrow> (Finished (reply 500 (Error ''Failed to verify code'')), st)
      | Some st1 \<Rightarrow> (AtInsert, st1))"
| "step c (AtInsert, st) =
     (case create_session (c_env c) (c_sessionId c) (c_email c) st of
        (st1, r) \<Rightarrow> (Finished r, st1))"
| "step c (Finished r, st) = (Finished r, st)"

fun run :: "call \<Rightarrow> call \<Rightarrow> bool list \<Rightarrow> pc \<times> pc \<times> state \<Rightarrow> pc \<times> pc \<times> state" where
  "run a b [] cfg = cfg"
| "run a b (True # sched) (pa, pb, st) =
     (case step a (pa, st) of (pa1, st1) \<Rightarrow> run a b sched (pa1, pb, st1))"
| "run a b (False # sched) (pa, pb, st) =
     (case step b (pb, st) of (pb1, st1) \<Rightarrow> run a b sched (pa, pb1, st1))"

section \<open>Sample inputs\<close>

text \<open>
  Concrete environments, stores and invocations on which the theorems below are
  instantiated.

  \<open>working t\<close> is what an invocation that first reads the clock at \<open>t\<close> finds when
  everything answers: two approved emails, a runtime in UTC, the clock read again one
  and two milliseconds later. Its \<open>toLowerCase\<close> lowers \<^verbatim>\<open>A\<close> to \<^verbatim>\<open>Z\<close> only, which
  is what the runtime's does on the ASCII strings of the samples.
\<close>

definition ascii_lower :: "ustring \<Rightarrow> ustring" where
  "ascii_lower s = map (\<lambda>u. if 0x41 \<le> u \<and> u \<le> 0x5A then u + 0x20 else u) s"

definition working :: "nat \<Rightarrow> env" where
  "working t =
     \<lparr>approved_recruiter_emails = Some (utf16 ''alice@x.com, Bob@Y.org''),
      toLowerCase = ascii_lower, LocalTZA = (\<lambda>t isUTC. 0),
      second_read = t + 1, third_read = t + 2,
      fetch_fails = False, update_fails = False, insert_fails = False, delete_fails = False,
      email_send = Delivered\<rparr>"




definition empty_store :: state where
  "empty_store = \<lparr>verification_codes = [], sessions = [], outbox = []\<rparr>"

definition alice :: ustring where
  "alice = utf16 ''alice@x.com''"

text \<open>The same address as typed: two spaces, capitals, a trailing space.\<close>

definition alice_typed :: ustring where
  "alice_typed = utf16 ''  Alice@X.com ''"

text \<open>
  The same address as pasted, with a NO-BREAK SPACE in front and an EM SPACE behind; an
  address that is not approved, pasted with a NO-BREAK SPACE in front; and that one with
  an EM SPACE inside.
\<close>

definition alice_pasted :: ustring where
  "alice_pasted = 0xA0 # utf16 ''Alice@X.com'' @ [0x2003]"

definition carol_pasted :: ustring where
  "carol_pasted = 0xA0 # utf16 ''Carol@Z.net''"

definition carol_spaced :: ustring where
  "carol_spaced = utf16 ''car'' @ [0x2003] @ utf16 ''ol@z.net''"

text \<open>A code for \<^verbatim>\<open>alice@x.com\<close> issued at the instant \<open>t\<close> under the id \<open>i\<close>.\<close>

definition alice_code :: "nat \<Rightarrow> nat \<Rightarrow> vcode" where
  "alice_code i t =
     \<lparr>vc_id = i, vc_email = alice, vc_code = ''12345'', vc_created_at = t,
      vc_expires_at = t + 600000, vc_used = False, vc_used_at = None\<rparr>"

definition one_code :: state where
  "one_code = \<lparr>verification_codes = [alice_code 1 1000], sessions = [], outbox = []\<rparr>"

definition mixed_codes :: state where
  "mixed_codes =
     \<lparr>verification_codes =
        [alice_code 1 1000, alice_code 2 5000, (alice_code 3 9000)\<lparr>vc_used := True\<rparr>],
      sessions = [], outbox = []\<rparr>"

definition expired_pair :: state where
  "expired_pair =
     \<lparr>verification_codes = [alice_code 1 1000, alice_code 2 5000], sessions = [], outbox = []\<rparr>"

definition stale_session :: state where
  "stale_session =
     \<lparr>verification_codes = [],
      sessions = [\<lparr>session_id = ''abc'', s_email = alice, s_expires_at = 5000,
                   last_accessed = None\<rparr>],
      outbox = []\<rparr>"

text \<open>The same code drawn twice for the same address, in UTC and across the change of zone.\<close>

definition issued_twice :: state where
  "issued_twice =
     fst (send_code (working 2000) 2000 2345 (post_send alice)
       (fst (send_code (working 1000) 1000 2345 (post_send alice) empty_store)))"


definition first_call :: call where
  "first_call =
     \<lparr>c_env = working 2000, c_now = 2000, c_sessionId = ''s1'', c_email = alice,
      c_code = ''12345''\<rparr>"

definition second_call :: call where
  "second_call =
     \<lparr>c_env = working 2001, c_now = 2001, c_sessionId = ''s2'', c_email = alice,
      c_code = ''12345''\<rparr>"

section \<open>The lookup\<close>

lemmas string_eval = normalize_email_def trim_def is_space_def ascii_lower_def utf16_def
  code_format_def is_digit_def

lemmas send_eval = approvedEmails_def emailRegex_def plain_char_def generate_code_def
  show_nat.simps digit_char_def insert_code_def next_id_def

lemma normalize_alice_typed: "normalize_email (working t) alice_typed = alice"
  by (simp add: string_eval working_def alice_typed_def alice_def)

lemma normalize_alice: "normalize_email (working t) alice = alice"
  by (simp add: string_eval working_def alice_def)

lemma alice_typed_present: "alice_typed \<noteq> []"
  by (simp add: alice_typed_def utf16_def)

lemma alice_present: "alice \<noteq> []"
  by (simp add: alice_def utf16_def)

lemma newest_of_mem: "newest_of best rs \<in> set (best # rs)"
  by (induction rs arbitrary: best) (auto split: if_splits)

lemma newest_of_ge_best: "vc_created_at best \<le> vc_created_at (newest_of best rs)"
proof (induction rs arbitrary: best)
  case Nil
  show ?case by simp
next
  case (Cons r rs)
  have "vc_created_at best \<le> vc_created_at (if vc_created_at best < vc_created_at r then r else best)"
    by simp
  also have "\<dots> \<le> vc_created_at (newest_of (if vc_created_at best < vc_created_at r then r else best) rs)"
    by (rule Cons.IH)
  finally show ?case by simp
qed

lemma newest_of_max: "x \<in> set (best # rs) \<Longrightarrow> vc_created_at x \<le> vc_created_at (newest_of best rs)"
proof (induction rs arbitrary: best)
  case Nil
  then show ?case by simp
next
  case (Cons r rs)
  let ?b = "if vc_created_at best < vc_created_at r then r else best"
  from Cons.prems consider "x = best" | "x = r" | "x \<in> set rs" by auto
  then show ?case
  proof cases
    case 1
    have "vc_created_at best \<le> vc_created_at ?b" by simp
    also have "\<dots> \<le> vc_created_at (newest_of ?b rs)" by (rule newest_of_ge_best)
    finally show ?thesis using 1 by simp
  next
    case 2
    have "vc_created_at r \<le> vc_created_at ?b" by simp
    also have "\<dots> \<le> vc_created_at (newest_of ?b rs)" by (rule newest_of_ge_best)
    finally show ?thesis using 2 by simp
  next
    case 3
    then have "x \<in> set (?b # rs)" by simp
    then have "vc_created_at x \<le> vc_created_at (newest_of ?b rs)" by (rule Cons.IH)
    then show ?thesis by simp
  qed
qed

lemma newest_None: "newest rows = None \<longleftrightarrow> rows = []"
  by (simp add: newest_def split: list.splits)

lemma newest_Some:
  assumes "newest rows = Some v"
  shows "v \<in> set rows" and "\<And>x. x \<in> set rows \<Longrightarrow> vc_created_at x \<le> vc_created_at v"
proof -
  from assms obtain r rs where rows: "rows = r # rs" and v: "v = newest_of r rs"
    by (auto simp: newest_def split: list.splits)
  show "v \<in> set rows" unfolding rows v by (rule newest_of_mem)
  fix x assume "x \<in> set rows"
  then show "vc_created_at x \<le> vc_created_at v" unfolding rows v by (rule newest_of_max)
qed

lemma find_code_Some:
  assumes "find_code e email code st = Some v"
  shows "\<not> fetch_fails e" and "v \<in> set (verification_codes st)" and "matches email code v"
    and "\<And>r. r \<in> set (verification_codes st) \<Longrightarrow> matches email code r \<Longrightarrow>
           vc_created_at r \<le> vc_created_at v"
proof -
  from assms show nf: "\<not> fetch_fails e"
    by (auto simp: find_code_def split: if_splits)
  with assms have n: "newest (filter (matches email code) (verification_codes st)) = Some v"
    by (simp add: find_code_def)
  from newest_Some(1)[OF n] show "v \<in> set (verification_codes st)" and "matches email code v"
    by auto
  fix r assume "r \<in> set (verification_codes st)" "matches email code r"
  then have "r \<in> set (filter (matches email code) (verification_codes st))" by simp
  then show "vc_created_at r \<le> vc_created_at v" by (rule newest_Some(2)[OF n])
qed

lemma find_code_None:
  assumes "\<And>r. r \<in> set (verification_codes st) \<Longrightarrow> \<not> matches email code r"
  shows "find_code e email code st = None"
proof -
  from assms have "filter (matches email code) (verification_codes st) = []"
    by (auto simp: filter_empty_conv)
  then show ?thesis by (simp add: find_code_def newest_def)
qed

lemma find_code_exists:
  assumes "\<not> fetch_fails e" and "r \<in> set (verification_codes st)" and "matches email code r"
  shows "\<exists>v. find_code e email code st = Some v"
proof -
  from assms(2,3) have "filter (matches email code) (verification_codes st) \<noteq> []"
    by (auto simp: filter_empty_conv)
  then have "newest (filter (matches email code) (verification_codes st)) \<noteq> None"
    by (simp add: newest_None)
  with assms(1) show ?thesis by (auto simp: find_code_def)
qed

lemma code_format_nonempty: "code_format code \<Longrightarrow> code \<noteq> []"
  by (auto simp: code_format_def)

lemma verify_code_post:
  assumes "email \<noteq> []" and "code_format code"
  shows "verify_code e now sid (post_verify email code) st =
           (case find_code e (normalize_email e email) code st of
              None \<Rightarrow> (st, reply 401 (Error ''Invalid verification code''))
            | Some v \<Rightarrow> redeem e now sid (normalize_email e email) v st)"
  using assms code_format_nonempty[OF assms(2)]
  by (simp add: verify_code_def post_verify_def Let_def)

text \<open>
  C7. A verify-code request that carries an email and a five-digit code looks among the
  rows with that (normalised) email, that code and \<open>used = false\<close>: the row the lookup
  yields is one of them and none of them was created later, and the handler goes on
  with that row; when the store answers and such a row exists the lookup yields one;
  when no such row exists the answer is 401 "Invalid verification code" and the store
  is untouched.
\<close>

theorem lookup_takes_newest_unused:
  assumes "email \<noteq> []" and "code_format code"
  shows "(\<forall>v. find_code e (normalize_email e email) code st = Some v \<longrightarrow>
            v \<in> set (verification_codes st) \<and> matches (normalize_email e email) code v \<and>
            (\<forall>r \<in> set (verification_codes st).
               matches (normalize_email e email) code r \<longrightarrow> vc_created_at r \<le> vc_created_at v) \<and>
            verify_code e now sid (post_verify email code) st =
              redeem e now sid (normalize_email e email) v st) \<and>
         (\<not> fetch_fails e \<longrightarrow>
            (\<exists>r \<in> set (verification_codes st). matches (normalize_email e email) code r) \<longrightarrow>
            (\<exists>v. find_code e (normalize_email e email) code st = Some v)) \<and>
         ((\<forall>r \<in> set (verification_codes st). \<not> matches (normalize_email e email) code r) \<longrightarrow>
            verify_code e now sid (post_verify email code) st =
              (st, reply 401 (Error ''Invalid verification code'')))"
proof (intro conjI allI impI)
  fix v assume f: "find_code e (normalize_email e email) code st = Some v"
  show "v \<in> set (verification_codes st)" by (rule find_code_Some(2)[OF f])
  show "matches (normalize_email e email) code v" by (rule find_code_Some(3)[OF f])
  show "\<forall>r \<in> set (verification_codes st).
          matches (normalize_email e email) code r \<longrightarrow> vc_created_at r \<le> vc_created_at v"
    using find_code_Some(4)[OF f] by blast
  show "verify_code e now sid (post_verify email code) st =
          redeem e now sid (normalize_email e email) v st"
    using f by (simp add: verify_code_post[OF assms])
next
  assume "\<not> fetch_fails e"
    and "\<exists>r \<in> set (verification_codes st). matches (normalize_email e email) code r"
  then show "\<exists>v. find_code e (normalize_email e email) code st = Some v"
    using find_code_exists by blast
next
  assume "\<forall>r \<in> set (verification_codes st). \<not> matches (normalize_email e email) code r"
  then have "find_code e (normalize_email e email) code st = None"
    by (intro find_code_None) blast
  then show "verify_code e now sid (post_verify email code) st =
               (st, reply 401 (Error ''Invalid verification code''))"
    by (simp add: verify_code_post[OF assms])
qed

theorem lookup_takes_newest_unused_witness:
  "find_code (working 6000) alice ''12345'' mixed_codes = Some (alice_code 2 5000) \<and>
   vc_created_at (alice_code 1 1000) \<le> vc_created_at (alice_code 2 5000) \<and>
   verify_code (working 6000) 6000 ''s1'' (post_verify alice_typed ''12345'') mixed_codes =
     redeem (working 6000) 6000 ''s1'' alice (alice_code 2 5000) mixed_codes \<and>
   verify_code (working 6000) 6000 ''s1'' (post_verify alice_typed ''12345'') empty_store =
     (empty_store, reply 401 (Error ''Invalid verification code''))"
proof -
  have code: "code_format ''12345''" by (simp add: string_eval)
  have found: "find_code (working 6000) alice ''12345'' mixed_codes = Some (alice_code 2 5000)"
    by (simp add: find_code_def working_def mixed_codes_def alice_code_def matches_def newest_def)
  have older: "alice_code 1 1000 \<in> set (verification_codes mixed_codes)"
    by (simp add: mixed_codes_def)
  have m: "matches alice ''12345'' (alice_code 1 1000)"
    by (simp add: matches_def alice_code_def)
  have none: "\<forall>r \<in> set (verification_codes empty_store). \<not> matches alice ''12345'' r"
    by (simp add: empty_store_def)
  note M = lookup_takes_newest_unused[OF alice_typed_present code,
      of "working 6000" mixed_codes 6000 "''s1''", unfolded normalize_alice_typed]
  note E = lookup_takes_newest_unused[OF alice_typed_present code,
      of "working 6000" empty_store 6000 "''s1''", unfolded normalize_alice_typed]
  note row = M[THEN conjunct1, THEN spec, THEN mp, OF found]
  have le: "vc_created_at (alice_code 1 1000) \<le> vc_created_at (alice_code 2 5000)"
    using row[THEN conjunct2, THEN conjunct2, THEN conjunct1] older m by blast
  note goes_on = row[THEN conjunct2, THEN conjunct2, THEN conjunct2]
  note invalid = E[THEN conjunct2, THEN conjunct2, THEN mp, OF none]
  show ?thesis by (intro conjI found le goes_on invalid)
qed

section \<open>verify-code: expiry and failed writes\<close>

lemmas verify_eval = find_code_def matches_def newest_def redeem_def mark_used_def
  mark_expired_def create_session_def set_used_def set_used_at_def ten_minutes_def one_day_def
  plus_local_def LocalTime_def UTC_def

lemma redeem_expired:
  "vc_expires_at v < now \<Longrightarrow>
   redeem e now sid email v st =
     (mark_expired e v st,
      reply 401 (Error ''Verification code has expired. Please request a new one.''))"
  by (simp add: redeem_def)



lemma set_used_at_row:
  "x \<in> set (set_used_at i t rows) \<Longrightarrow> \<not> vc_used x \<Longrightarrow> x \<in> set rows \<and> vc_id x \<noteq> i"
  by (auto simp: set_used_at_def split: if_splits)


lemma set_used_at_marks:
  assumes "x \<in> set (set_used_at i t rows)" and "vc_id x = i"
  shows "vc_used x"
proof -
  from assms(1)
  have "x \<in> (\<lambda>r. if vc_id r = i then r\<lparr>vc_used := True, vc_used_at := Some t\<rparr> else r) ` set rows"
    by (simp add: set_used_at_def)
  then obtain r
    where x: "x = (if vc_id r = i then r\<lparr>vc_used := True, vc_used_at := Some t\<rparr> else r)"
    by blast
  show ?thesis
  proof (cases "vc_id r = i")
    case True
    with x show ?thesis by simp
  next
    case False
    with x assms(2) show ?thesis by simp
  qed
qed



text \<open>
  C10. In the expired branch the update that marks the code used is awaited and its
  result is dropped. When that update fails the handler still answers 401 "expired"
  (not 500), the store is exactly as before, the row is still unused, and any later
  lookup for the same email and code that reaches the store finds it again.
\<close>

theorem expired_branch_ignores_update_failure:
  assumes "email \<noteq> []" and "code_format code"
    and "find_code e (normalize_email e email) code st = Some v"
    and "vc_expires_at v < now"
    and "update_fails e"
  shows "verify_code e now sid (post_verify email code) st =
           (st, reply 401 (Error ''Verification code has expired. Please request a new one.'')) \<and>
         v \<in> set (verification_codes (fst (verify_code e now sid (post_verify email code) st))) \<and>
         \<not> vc_used v \<and>
         (\<forall>e'. \<not> fetch_fails e' \<longrightarrow>
            find_code e' (normalize_email e email) code
              (fst (verify_code e now sid (post_verify email code) st)) = Some v)"
proof -
  have r: "verify_code e now sid (post_verify email code) st =
             (st, reply 401 (Error ''Verification code has expired. Please request a new one.''))"
    using assms(3,4,5) by (simp add: verify_code_post[OF assms(1,2)] redeem_expired mark_expired_def)
  have later: "find_code e' (normalize_email e email) code st = Some v" if "\<not> fetch_fails e'" for e'
    using that assms(3) by (simp add: find_code_def split: if_splits)
  have unused: "\<not> vc_used v"
    using find_code_Some(3)[OF assms(3)] by (simp add: matches_def)
  have stored: "v \<in> set (verification_codes (fst (verify_code e now sid (post_verify email code) st)))"
    unfolding r using find_code_Some(2)[OF assms(3)] by simp
  have again: "\<forall>e'. \<not> fetch_fails e' \<longrightarrow>
            find_code e' (normalize_email e email) code
              (fst (verify_code e now sid (post_verify email code) st)) = Some v"
    unfolding r using later by simp
  show ?thesis by (intro conjI r stored unused again)
qed

theorem expired_branch_ignores_update_failure_witness:
  "update_fails ((working 700000)\<lparr>update_fails := True\<rparr>) \<and>
   find_code ((working 700000)\<lparr>update_fails := True\<rparr>) alice ''12345'' one_code =
     Some (alice_code 1 1000) \<and>
   vc_expires_at (alice_code 1 1000) < 700000 \<and>
   verify_code ((working 700000)\<lparr>update_fails := True\<rparr>) 700000 ''s1''
       (post_verify alice ''12345'') one_code =
     (one_code, reply 401 (Error ''Verification code has expired. Please request a new one.'')) \<and>
   \<not> vc_used (alice_code 1 1000) \<and>
   find_code (working 700100) alice ''12345''
     (fst (verify_code ((working 700000)\<lparr>update_fails := True\<rparr>) 700000 ''s1''
             (post_verify alice ''12345'') one_code)) =
     Some (alice_code 1 1000)"
proof -
  let ?e = "(working 700000)\<lparr>update_fails := True\<rparr>"
  have code: "code_format ''12345''" by (simp add: string_eval)
  have norm: "normalize_email ?e alice = alice"
    by (simp add: string_eval working_def alice_def)
  have found: "find_code ?e (normalize_email ?e alice) ''12345'' one_code =
                 Some (alice_code 1 1000)"
    unfolding norm by (simp add: working_def one_code_def alice_code_def verify_eval)
  have late: "vc_expires_at (alice_code 1 1000) < 700000" by (simp add: alice_code_def)
  have broken: "update_fails ?e" by simp
  have ok: "\<not> fetch_fails (working 700100)" by (simp add: working_def)
  note T = expired_branch_ignores_update_failure[OF alice_present code found late broken,
      of "''s1''", unfolded norm]
  note a = T[THEN conjunct1]
  note b = T[THEN conjunct2, THEN conjunct2, THEN conjunct1]
  note c = T[THEN conjunct2, THEN conjunct2, THEN conjunct2, THEN spec, THEN mp, OF ok]
  show ?thesis by (intro conjI broken found[unfolded norm] late a b c)
qed

lemma redeem_fresh:
  "\<not> vc_expires_at v < now \<Longrightarrow>
   redeem e now sid email v st =
     (case mark_used e v st of
        None \<Rightarrow> (st, reply 500 (Error ''Failed to verify code''))
      | Some st1 \<Rightarrow> create_session e sid email st1)"
  by (simp add: redeem_def)

text \<open>
  C3. On the redemption path (a matching unused row was found and it has not expired),
  when the update that marks the code used fails, or the session insert fails, the answer
  is 500: it carries no \<open>sessionId\<close> and no session row is written. A failed update
  leaves the store untouched; a failed insert after a successful update leaves the code
  marked used.

  The restriction to the redemption path is needed: in the expired branch a failed
  mark-used update is answered 401, as the closed instance after the witness shows.
\<close>

theorem redemption_write_failure_gives_500:
  assumes "email \<noteq> []" and "code_format code"
    and "find_code e (normalize_email e email) code st = Some v"
    and "\<not> vc_expires_at v < now"
    and "update_fails e \<or> insert_fails e"
  shows "statusCode (snd (verify_code e now sid (post_verify email code) st)) = 500 \<and>
         sessionId_of (snd (verify_code e now sid (post_verify email code) st)) = None \<and>
         sessions (fst (verify_code e now sid (post_verify email code) st)) = sessions st \<and>
         (update_fails e \<longrightarrow>
            verify_code e now sid (post_verify email code) st =
              (st, reply 500 (Error ''Failed to verify code''))) \<and>
         (\<not> update_fails e \<longrightarrow>
            verify_code e now sid (post_verify email code) st =
              (st\<lparr>verification_codes :=
                    set_used_at (vc_id v) (second_read e) (verification_codes st)\<rparr>,
               reply 500 (Error ''Failed to create session'')))"
proof (cases "update_fails e")
  case True
  have "verify_code e now sid (post_verify email code) st =
          (st, reply 500 (Error ''Failed to verify code''))"
    using assms(3,4) True
    by (simp add: verify_code_post[OF assms(1,2)] redeem_fresh mark_used_def)
  with True show ?thesis by (simp add: reply_def)
next
  case False
  with assms(5) have ins: "insert_fails e" by simp
  have "verify_code e now sid (post_verify email code) st =
          (st\<lparr>verification_codes :=
                set_used_at (vc_id v) (second_read e) (verification_codes st)\<rparr>,
           reply 500 (Error ''Failed to create session''))"
    using assms(3,4) False ins
    by (simp add: verify_code_post[OF assms(1,2)] redeem_fresh mark_used_def create_session_def)
  with False show ?thesis by (simp add: reply_def)
qed

theorem redemption_write_failure_gives_500_witness:
  "statusCode (snd (verify_code ((working 2000)\<lparr>update_fails := True\<rparr>) 2000 ''s1''
      (post_verify alice ''12345'') one_code)) = 500 \<and>
   sessionId_of (snd (verify_code ((working 2000)\<lparr>update_fails := True\<rparr>) 2000 ''s1''
      (post_verify alice ''12345'') one_code)) = None \<and>
   fst (verify_code ((working 2000)\<lparr>update_fails := True\<rparr>) 2000 ''s1''
      (post_verify alice ''12345'') one_code) = one_code \<and>
   verify_code ((working 2000)\<lparr>insert_fails := True\<rparr>) 2000 ''s1''
       (post_verify alice ''12345'') one_code =
     (one_code\<lparr>verification_codes :=
        [(alice_code 1 1000)\<lparr>vc_used := True, vc_used_at := Some 2001\<rparr>]\<rparr>,
      reply 500 (Error ''Failed to create session''))"
proof -
  let ?u = "(working 2000)\<lparr>update_fails := True\<rparr>"
  let ?i = "(working 2000)\<lparr>insert_fails := True\<rparr>"
  have code: "code_format ''12345''" by (simp add: string_eval)
  have norm_u: "normalize_email ?u alice = alice"
    by (simp add: string_eval working_def alice_def)
  have norm_i: "normalize_email ?i alice = alice"
    by (simp add: string_eval working_def alice_def)
  have found_u: "find_code ?u (normalize_email ?u alice) ''12345'' one_code =
                   Some (alice_code 1 1000)"
    unfolding norm_u by (simp add: working_def one_code_def alice_code_def verify_eval)
  have found_i: "find_code ?i (normalize_email ?i alice) ''12345'' one_code =
                   Some (alice_code 1 1000)"
    unfolding norm_i by (simp add: working_def one_code_def alice_code_def verify_eval)
  have fresh: "\<not> vc_expires_at (alice_code 1 1000) < 2000" by (simp add: alice_code_def)
  have bu: "update_fails ?u \<or> insert_fails ?u" by simp
  have bi: "update_fails ?i \<or> insert_fails ?i" by simp
  have u: "update_fails ?u" by simp
  have i: "\<not> update_fails ?i" by (simp add: working_def)
  have rows: "set_used_at (vc_id (alice_code 1 1000)) (second_read ?i)
                (verification_codes one_code) =
                [(alice_code 1 1000)\<lparr>vc_used := True, vc_used_at := Some 2001\<rparr>]"
    by (simp add: set_used_at_def one_code_def working_def)
  note U = redemption_write_failure_gives_500[OF alice_present code found_u fresh bu, of "''s1''"]
  note I = redemption_write_failure_gives_500[OF alice_present code found_i fresh bi, of "''s1''"]
  note a = U[THEN conjunct1]
  note b = U[THEN conjunct2, THEN conjunct1]
  have c: "fst (verify_code ?u 2000 ''s1'' (post_verify alice ''12345'') one_code) = one_code"
    using U[THEN conjunct2, THEN conjunct2, THEN conjunct2, THEN conjunct1, THEN mp, OF u] by simp
  note d = I[THEN conjunct2, THEN conjunct2, THEN conjunct2, THEN conjunct2, THEN mp, OF i,
      unfolded rows]
  show ?thesis by (intro conjI a b c d)
qed

theorem expired_update_failure_is_not_500:
  "update_fails ((working 900000)\<lparr>update_fails := True\<rparr>) \<and>
   find_code ((working 900000)\<lparr>update_fails := True\<rparr>) alice ''12345'' expired_pair =
     Some (alice_code 2 5000) \<and>
   vc_expires_at (alice_code 2 5000) < 900000 \<and>
   statusCode (snd (verify_code ((working 900000)\<lparr>update_fails := True\<rparr>) 900000 ''s1''
      (post_verify alice ''12345'') expired_pair)) = 401 \<and>
   statusCode (snd (verify_code ((working 900000)\<lparr>update_fails := True\<rparr>) 900000 ''s1''
      (post_verify alice ''12345'') expired_pair)) \<noteq> 500"
  by (simp add: verify_code_def post_verify_def Let_def string_eval working_def alice_def
      alice_code_def verify_eval expired_pair_def reply_def)





section \<open>check-session: expired sessions\<close>

lemma check_session_post:
  assumes "sessionId \<noteq> []"
  shows "check_session e now (post_check sessionId) st =
     (case (if fetch_fails e then None else single_session sessionId (sessions st)) of
        None \<Rightarrow> (st, reply 200 (SessionInvalid ''Session not found''))
      | Some sessionData \<Rightarrow>
          if s_expires_at sessionData < now then
            ((if delete_fails e then st
              else st\<lparr>sessions := filter (\<lambda>s. session_id s \<noteq> sessionId) (sessions st)\<rparr>),
             reply 200 (SessionInvalid ''Session expired''))
          else
            ((if update_fails e then st
              else st\<lparr>sessions :=
                      map (\<lambda>s. if session_id s = sessionId then s\<lparr>last_accessed := Some (second_read e)\<rparr> else s)
                          (sessions st)\<rparr>),
             reply 200 (SessionValid (s_email sessionData) (s_expires_at sessionData))))"
  using assms by (simp add: check_session_def post_check_def Let_def)

lemma single_session_gone:
  "single_session sid (filter (\<lambda>s. session_id s \<noteq> sid) rows) = None"
proof -
  have "filter (\<lambda>s. session_id s = sid) (filter (\<lambda>s. session_id s \<noteq> sid) rows) = []"
    by (induction rows) auto
  then show ?thesis by (simp add: single_session_def)
qed

lemma single_session_Some:
  assumes "single_session sid rows = Some s"
  shows "s \<in> set rows" and "session_id s = sid"
proof -
  from assms have f: "filter (\<lambda>s. session_id s = sid) rows = [s]"
    by (auto simp: single_session_def split: list.splits)
  have "s \<in> set (filter (\<lambda>s. session_id s = sid) rows)" unfolding f by simp
  then show "s \<in> set rows" and "session_id s = sid" by auto
qed

text \<open>
  C6. When check-session finds exactly one session with the given id and it has
  \<open>expires_at < now\<close>, the answer is 200 with \<open>valid: false\<close>, reason "Session
  expired", and the code table is untouched. If the store accepts the delete, the rows
  with that id are gone and every later check-session with that id is answered
  "Session not found" and changes nothing. In every case a later check-session (at the
  same instant or later) is answered \<open>valid: false\<close>.
\<close>

theorem expired_session_is_deleted:
  assumes "sessionId \<noteq> []" and "\<not> fetch_fails e"
    and "single_session sessionId (sessions st) = Some s"
    and "s_expires_at s < now"
  shows "snd (check_session e now (post_check sessionId) st) =
           reply 200 (SessionInvalid ''Session expired'') \<and>
         verification_codes (fst (check_session e now (post_check sessionId) st)) =
           verification_codes st \<and>
         (\<not> delete_fails e \<longrightarrow>
            sessions (fst (check_session e now (post_check sessionId) st)) =
              filter (\<lambda>x. session_id x \<noteq> sessionId) (sessions st) \<and>
            s \<notin> set (sessions (fst (check_session e now (post_check sessionId) st))) \<and>
            check_session e' now' (post_check sessionId)
                (fst (check_session e now (post_check sessionId) st)) =
              (fst (check_session e now (post_check sessionId) st),
               reply 200 (SessionInvalid ''Session not found''))) \<and>
         (now \<le> now' \<longrightarrow>
            payload (snd (check_session e' now' (post_check sessionId)
              (fst (check_session e now (post_check sessionId) st)))) =
              SessionInvalid ''Session not found'' \<or>
            payload (snd (check_session e' now' (post_check sessionId)
              (fst (check_session e now (post_check sessionId) st)))) =
              SessionInvalid ''Session expired'')"
proof -
  let ?gone = "st\<lparr>sessions := filter (\<lambda>x. session_id x \<noteq> sessionId) (sessions st)\<rparr>"
  let ?st1 = "if delete_fails e then st else ?gone"
  have first: "check_session e now (post_check sessionId) st =
                 (?st1, reply 200 (SessionInvalid ''Session expired''))"
    using assms(2,3,4) by (simp add: check_session_post[OF assms(1)])
  have codes: "verification_codes ?st1 = verification_codes st" by simp
  have after_delete: "check_session e' now' (post_check sessionId) ?gone =
                        (?gone, reply 200 (SessionInvalid ''Session not found''))"
    by (simp add: check_session_post[OF assms(1)] single_session_gone)
  have deleted: "\<not> delete_fails e \<longrightarrow>
      sessions ?st1 = filter (\<lambda>x. session_id x \<noteq> sessionId) (sessions st) \<and>
      s \<notin> set (sessions ?st1) \<and>
      check_session e' now' (post_check sessionId) ?st1 =
        (?st1, reply 200 (SessionInvalid ''Session not found''))"
    using after_delete single_session_Some(2)[OF assms(3)] by simp
  have still: "now \<le> now' \<longrightarrow>
                 payload (snd (check_session e' now' (post_check sessionId) ?st1)) =
                   SessionInvalid ''Session not found'' \<or>
                 payload (snd (check_session e' now' (post_check sessionId) ?st1)) =
                   SessionInvalid ''Session expired''"
  proof (intro impI)
    assume mono: "now \<le> now'"
    show "payload (snd (check_session e' now' (post_check sessionId) ?st1)) =
            SessionInvalid ''Session not found'' \<or>
          payload (snd (check_session e' now' (post_check sessionId) ?st1)) =
            SessionInvalid ''Session expired''"
    proof (cases "delete_fails e")
      case False
      with after_delete show ?thesis by (simp add: reply_def)
    next
      case True
      from assms(4) mono have "s_expires_at s < now'" by simp
      with True assms(3) show ?thesis
        by (simp add: check_session_post[OF assms(1)] reply_def)
    qed
  qed
  show ?thesis
    unfolding first fst_conv snd_conv
    by (intro conjI refl codes deleted still)
qed

theorem expired_session_is_deleted_witness:
  "single_session ''abc'' (sessions stale_session) =
     Some \<lparr>session_id = ''abc'', s_email = alice, s_expires_at = 5000,
            last_accessed = None\<rparr> \<and>
   snd (check_session (working 6000) 6000 (post_check ''abc'') stale_session) =
     reply 200 (SessionInvalid ''Session expired'') \<and>
   sessions (fst (check_session (working 6000) 6000 (post_check ''abc'') stale_session)) = [] \<and>
   snd (check_session (working 7000) 7000 (post_check ''abc'')
     (fst (check_session (working 6000) 6000 (post_check ''abc'') stale_session))) =
     reply 200 (SessionInvalid ''Session not found'')"
proof -
  have sid: "''abc'' \<noteq> []" by simp
  have fetch: "\<not> fetch_fails (working 6000)" by (simp add: working_def)
  have del: "\<not> delete_fails (working 6000)" by (simp add: working_def)
  have found: "single_session ''abc'' (sessions stale_session) =
     Some \<lparr>session_id = ''abc'', s_email = alice, s_expires_at = 5000,
            last_accessed = None\<rparr>"
    by (simp add: single_session_def stale_session_def)
  have late: "s_expires_at \<lparr>session_id = ''abc'', s_email = alice, s_expires_at = 5000,
            last_accessed = None\<rparr> < 6000"
    by simp
  have rows: "filter (\<lambda>x. session_id x \<noteq> ''abc'') (sessions stale_session) = []"
    by (simp add: stale_session_def)
  note T = expired_session_is_deleted[OF sid fetch found late, of "working 7000" 7000]
  note a = T[THEN conjunct1]
  note D = T[THEN conjunct2, THEN conjunct2, THEN conjunct1, THEN mp, OF del]
  note b = D[THEN conjunct1, unfolded rows]
  have c: "snd (check_session (working 7000) 7000 (post_check ''abc'')
     (fst (check_session (working 6000) 6000 (post_check ''abc'') stale_session))) =
     reply 200 (SessionInvalid ''Session not found'')"
    using D[THEN conjunct2, THEN conjunct2] by simp
  show ?thesis by (intro conjI found a b c)
qed

section \<open>send-code, the mail transport, normalisation\<close>

lemma show_nat_small: "n < 10 \<Longrightarrow> show_nat n = [digit_char n]"
  by (subst show_nat.simps) simp

lemma show_nat_step: "10 \<le> n \<Longrightarrow> show_nat n = show_nat (n div 10) @ [digit_char (n mod 10)]"
  by (subst show_nat.simps) simp

lemma is_digit_digit_char: "d < 10 \<Longrightarrow> is_digit (digit_char d)"
proof -
  assume "d < 10"
  then have "d < length ''0123456789''" by simp
  then have "''0123456789'' ! d \<in> set ''0123456789''" by (rule nth_mem)
  then show ?thesis by (simp only: is_digit_def digit_char_def)
qed

lemma show_nat_five:
  assumes "10000 \<le> n" and "n < 100000"
  shows "show_nat n =
    [digit_char (n div 10000), digit_char (n div 1000 mod 10), digit_char (n div 100 mod 10),
     digit_char (n div 10 mod 10), digit_char (n mod 10)]"
proof -
  have a: "show_nat n = show_nat (n div 10) @ [digit_char (n mod 10)]"
    using assms by (intro show_nat_step) simp
  have b: "show_nat (n div 10) = show_nat (n div 10 div 10) @ [digit_char (n div 10 mod 10)]"
    using assms by (intro show_nat_step) simp
  have c: "show_nat (n div 10 div 10) =
             show_nat (n div 10 div 10 div 10) @ [digit_char (n div 10 div 10 mod 10)]"
    using assms by (intro show_nat_step) simp
  have d: "show_nat (n div 10 div 10 div 10) =
             show_nat (n div 10 div 10 div 10 div 10) @ [digit_char (n div 10 div 10 div 10 mod 10)]"
    using assms by (intro show_nat_step) simp
  have e: "show_nat (n div 10 div 10 div 10 div 10) = [digit_char (n div 10 div 10 div 10 div 10)]"
    using assms by (intro show_nat_small) simp
  show ?thesis unfolding a b c d e by (simp add: div_mult2_eq[symmetric])
qed

lemma code_format_generate_code:
  assumes "rnd < 90000"
  shows "code_format (generate_code rnd)"
proof -
  let ?n = "10000 + rnd"
  have five: "show_nat ?n =
    [digit_char (?n div 10000), digit_char (?n div 1000 mod 10), digit_char (?n div 100 mod 10),
     digit_char (?n div 10 mod 10), digit_char (?n mod 10)]"
    using assms by (intro show_nat_five) simp_all
  have "?n div 10000 < 10" using assms by simp
  then have "is_digit (digit_char (?n div 10000))" by (rule is_digit_digit_char)
  moreover have "is_digit (digit_char (?n div 1000 mod 10))" by (intro is_digit_digit_char) simp
  moreover have "is_digit (digit_char (?n div 100 mod 10))" by (intro is_digit_digit_char) simp
  moreover have "is_digit (digit_char (?n div 10 mod 10))" by (intro is_digit_digit_char) simp
  moreover have "is_digit (digit_char (?n mod 10))" by (intro is_digit_digit_char) simp
  ultimately show ?thesis
    unfolding generate_code_def code_format_def five by simp
qed

lemma send_code_post:
  assumes "email \<noteq> []"
  shows "send_code e now rnd (post_send email) st =
     (if \<not> emailRegex (normalize_email e email) then
        (st, reply 400 (Error ''Invalid email format''))
      else if normalize_email e email \<notin> set (approvedEmails e) then
        (st, reply 403 (Error ''Your email is not authorized to access this portal. Please contact your administrator.''))
      else if insert_fails e then
        (st, reply 500 (Error ''Failed to generate verification code''))
      else
        (case email_send e of
           Threw \<Rightarrow>
             (st\<lparr>verification_codes :=
                   insert_code now (normalize_email e email) (generate_code rnd)
                     (plus_local e now ten_minutes) (verification_codes st)\<rparr>,
              reply 200 (CodeSentWarning ''Code saved but email delivery may be delayed. Please check your spam folder or try again in a moment.''))
         | Refused \<Rightarrow>
             (st\<lparr>verification_codes :=
                   insert_code now (normalize_email e email) (generate_code rnd)
                     (plus_local e now ten_minutes) (verification_codes st)\<rparr>,
              reply 200 (CodeSent ''Verification code sent to your email''))
         | Delivered \<Rightarrow>
             (st\<lparr>verification_codes :=
                   insert_code now (normalize_email e email) (generate_code rnd)
                     (plus_local e now ten_minutes) (verification_codes st),
                 outbox := outbox st @ [(normalize_email e email, generate_code rnd)]\<rparr>,
              reply 200 (CodeSent ''Verification code sent to your email''))))"
  using assms by (simp add: send_code_def post_send_def Let_def split: mail_outcome.splits)

lemma send_code_empty:
  "send_code e now rnd (post_send []) st = (st, reply 400 (Error ''Email is required''))"
  by (simp add: send_code_def post_send_def)

lemma send_code_missing:
  "send_code e now rnd
     \<lparr>httpMethod = ''POST'', body = Some \<lparr>f_email = None, f_code = c, f_sessionId = s\<rparr>\<rparr> st =
   (st, reply 400 (Error ''Email is required''))"
  by (simp add: send_code_def)

text \<open>
  C5. A send-code request whose email is present, has the shape of an email after
  normalisation and is not in the list of approved emails is answered 403, and the state
  is returned as it was: no row is inserted, no session is touched, no mail is handed
  over. A request whose email is present but has not that shape after normalisation, or
  is empty, or is missing, is answered 400, and the state is returned as it was.

  The shape is needed for the status 403: the presence and shape checks come before the
  list is consulted, as the closed instance after the witness shows.
\<close>

theorem unlisted_email_is_refused:
  "(email \<noteq> [] \<longrightarrow> emailRegex (normalize_email e email) \<longrightarrow>
      normalize_email e email \<notin> set (approvedEmails e) \<longrightarrow>
      send_code e now rnd (post_send email) st =
        (st, reply 403 (Error ''Your email is not authorized to access this portal. Please contact your administrator.''))) \<and>
   (email \<noteq> [] \<longrightarrow> \<not> emailRegex (normalize_email e email) \<longrightarrow>
      send_code e now rnd (post_send email) st =
        (st, reply 400 (Error ''Invalid email format''))) \<and>
   send_code e now rnd (post_send []) st = (st, reply 400 (Error ''Email is required'')) \<and>
   send_code e now rnd
       \<lparr>httpMethod = ''POST'', body = Some \<lparr>f_email = None, f_code = c, f_sessionId = s\<rparr>\<rparr> st =
     (st, reply 400 (Error ''Email is required''))"
proof (intro conjI impI)
  assume "email \<noteq> []" and "emailRegex (normalize_email e email)"
    and "normalize_email e email \<notin> set (approvedEmails e)"
  then show "send_code e now rnd (post_send email) st =
        (st, reply 403 (Error ''Your email is not authorized to access this portal. Please contact your administrator.''))"
    by (simp add: send_code_post)
next
  assume "email \<noteq> []" and "\<not> emailRegex (normalize_email e email)"
  then show "send_code e now rnd (post_send email) st =
        (st, reply 400 (Error ''Invalid email format''))"
    by (simp add: send_code_post)
next
  show "send_code e now rnd (post_send []) st = (st, reply 400 (Error ''Email is required''))"
    by (rule send_code_empty)
  show "send_code e now rnd
       \<lparr>httpMethod = ''POST'', body = Some \<lparr>f_email = None, f_code = c, f_sessionId = s\<rparr>\<rparr> st =
     (st, reply 400 (Error ''Email is required''))"
    by (rule send_code_missing)
qed

theorem unlisted_email_is_refused_witness:
  "normalize_email (working 2000) carol_pasted = utf16 ''carol@z.net'' \<and>
   emailRegex (normalize_email (working 2000) carol_pasted) \<and>
   normalize_email (working 2000) carol_pasted \<notin> set (approvedEmails (working 2000)) \<and>
   send_code (working 2000) 2000 2345 (post_send carol_pasted) one_code =
     (one_code, reply 403 (Error ''Your email is not authorized to access this portal. Please contact your administrator.'')) \<and>
   \<not> emailRegex (normalize_email (working 2000) carol_spaced) \<and>
   send_code (working 2000) 2000 2345 (post_send carol_spaced) one_code =
     (one_code, reply 400 (Error ''Invalid email format''))"
proof -
  have present: "carol_pasted \<noteq> []" by (simp add: carol_pasted_def)
  have norm: "normalize_email (working 2000) carol_pasted = utf16 ''carol@z.net''"
    by (simp add: string_eval working_def carol_pasted_def)
  have shape: "emailRegex (normalize_email (working 2000) carol_pasted)"
    unfolding norm by (simp add: send_eval utf16_def is_space_def)
  have out: "normalize_email (working 2000) carol_pasted \<notin> set (approvedEmails (working 2000))"
    unfolding norm by (simp add: string_eval send_eval working_def)
  have present2: "carol_spaced \<noteq> []" by (simp add: carol_spaced_def utf16_def)
  have bad: "\<not> emailRegex (normalize_email (working 2000) carol_spaced)"
    by (simp add: string_eval send_eval working_def carol_spaced_def)
  note T = unlisted_email_is_refused[of carol_pasted "working 2000" 2000 2345 one_code]
  note T2 = unlisted_email_is_refused[of carol_spaced "working 2000" 2000 2345 one_code]
  note a = T[THEN conjunct1, THEN mp, OF present, THEN mp, OF shape, THEN mp, OF out]
  note b = T2[THEN conjunct2, THEN conjunct1, THEN mp, OF present2, THEN mp, OF bad]
  show ?thesis by (intro conjI norm shape out a bad b)
qed

theorem malformed_unlisted_email_gets_400:
  "normalize_email (working 2000) (utf16 ''carol@intranet'') \<notin>
     set (approvedEmails (working 2000)) \<and>
   send_code (working 2000) 2000 2345 (post_send (utf16 ''carol@intranet'')) one_code =
     (one_code, reply 400 (Error ''Invalid email format''))"
  by (simp add: send_code_def post_send_def Let_def string_eval send_eval working_def)

text \<open>
  C9. For two non-empty raw emails with the same normal form (trimmed of white space,
  then lower case), send-code answers alike and leaves the same state, and so does
  verify-code for any code; check-session does not read the email at all. Non-empty is
  needed: the presence test \<^verbatim>\<open>!email\<close> is made on the raw value, before normalisation,
  so a missing email and a blank one are told apart, as the closed instance after the
  witness shows.
\<close>

theorem same_identity_after_normalisation:
  assumes "email1 \<noteq> []" and "email2 \<noteq> []"
    and "normalize_email e email1 = normalize_email e email2"
  shows "send_code e now rnd (post_send email1) st = send_code e now rnd (post_send email2) st \<and>
         verify_code e now sid (post_verify email1 code) st =
           verify_code e now sid (post_verify email2 code) st \<and>
         check_session e now \<lparr>httpMethod = m, body = Some (b\<lparr>f_email := Some email1\<rparr>)\<rparr> st =
           check_session e now \<lparr>httpMethod = m, body = Some (b\<lparr>f_email := Some email2\<rparr>)\<rparr> st"
proof (intro conjI)
  show "send_code e now rnd (post_send email1) st = send_code e now rnd (post_send email2) st"
    unfolding send_code_post[OF assms(1)] send_code_post[OF assms(2)] assms(3) by (rule refl)
  show "verify_code e now sid (post_verify email1 code) st =
          verify_code e now sid (post_verify email2 code) st"
    using assms by (simp add: verify_code_def post_verify_def Let_def)
  show "check_session e now \<lparr>httpMethod = m, body = Some (b\<lparr>f_email := Some email1\<rparr>)\<rparr> st =
          check_session e now \<lparr>httpMethod = m, body = Some (b\<lparr>f_email := Some email2\<rparr>)\<rparr> st"
    by (simp add: check_session_def)
qed

theorem same_identity_after_normalisation_witness:
  "normalize_email (working 2000) alice_pasted = normalize_email (working 2000) alice \<and>
   send_code (working 2000) 2000 2345 (post_send alice_pasted) one_code =
     send_code (working 2000) 2000 2345 (post_send alice) one_code \<and>
   verify_code (working 2000) 2000 ''s1'' (post_verify alice_pasted ''12345'') one_code =
     verify_code (working 2000) 2000 ''s1'' (post_verify alice ''12345'') one_code"
proof -
  have e1: "alice_pasted \<noteq> []" by (simp add: alice_pasted_def)
  have same: "normalize_email (working 2000) alice_pasted = normalize_email (working 2000) alice"
    by (simp add: string_eval working_def alice_pasted_def alice_def)
  note T = same_identity_after_normalisation[OF e1 alice_present same]
  show ?thesis by (intro conjI same T[THEN conjunct1] T[THEN conjunct2, THEN conjunct1])
qed

theorem blank_email_is_not_missing_email:
  "normalize_email (working 2000) [] = normalize_email (working 2000) (utf16 '' '') \<and>
   snd (send_code (working 2000) 2000 2345 (post_send []) empty_store) =
     reply 400 (Error ''Email is required'') \<and>
   snd (send_code (working 2000) 2000 2345 (post_send (utf16 '' '')) empty_store) =
     reply 400 (Error ''Invalid email format'') \<and>
   statusCode (snd (verify_code (working 2000) 2000 ''s1'' (post_verify [] ''12345'')
     empty_store)) = 400 \<and>
   statusCode (snd (verify_code (working 2000) 2000 ''s1'' (post_verify (utf16 '' '') ''12345'')
     empty_store)) = 401"
  by (simp add: send_code_def verify_code_def post_send_def post_verify_def Let_def string_eval
      send_eval verify_eval working_def empty_store_def reply_def)

lemma matches_new_row:
  "matches email code
     \<lparr>vc_id = i, vc_email = email, vc_code = code, vc_created_at = now,
      vc_expires_at = x, vc_used = False, vc_used_at = None\<rparr>"
  by (simp add: matches_def)

lemma redeem_succeeds:
  assumes "\<not> vc_expires_at v < now" and "\<not> update_fails e" and "\<not> insert_fails e"
  shows "redeem e now sid email v st =
     (st\<lparr>verification_codes := set_used_at (vc_id v) (second_read e) (verification_codes st),
         sessions := sessions st @
           [\<lparr>session_id = sid, s_email = email,
             s_expires_at = plus_local e (third_read e) one_day, last_accessed = None\<rparr>]\<rparr>,
      reply 200 (Verified sid (plus_local e (third_read e) one_day)))"
  using assms by (simp add: redeem_def mark_used_def create_session_def Let_def)





section \<open>verify-code: single redemption\<close>

lemma send_code_issues:
  assumes "email \<noteq> []" and "emailRegex (normalize_email e email)"
    and "normalize_email e email \<in> set (approvedEmails e)" and "\<not> insert_fails e"
  shows "verification_codes (fst (send_code e now rnd (post_send email) st)) =
           insert_code now (normalize_email e email) (generate_code rnd)
             (plus_local e now ten_minutes) (verification_codes st)"
    and "sessions (fst (send_code e now rnd (post_send email) st)) = sessions st"
    and "statusCode (snd (send_code e now rnd (post_send email) st)) = 200"
  using assms(2-4)
  by (cases "email_send e"; simp add: send_code_post[OF assms(1)] reply_def)+

lemma find_code_single:
  assumes "\<not> fetch_fails e" and "filter (matches email code) (verification_codes st) = [v]"
  shows "find_code e email code st = Some v"
  using assms by (simp add: find_code_def newest_def)

lemma no_match_after_redemption:
  assumes only: "filter (matches email code) rows = [v]"
    and x: "x \<in> set (set_used_at (vc_id v) t rows)"
  shows "\<not> matches email code x"
proof
  assume m: "matches email code x"
  then have "\<not> vc_used x" by (simp add: matches_def)
  with x have "x \<in> set rows" and other: "vc_id x \<noteq> vc_id v"
    using set_used_at_row[of x "vc_id v" t rows] by simp_all
  with m have "x \<in> set (filter (matches email code) rows)" by simp
  then have "x = v" unfolding only by simp
  with other show False by simp
qed

lemma filter_matches_new:
  assumes "\<forall>r \<in> set rows. \<not> matches email code r"
  shows "filter (matches email code) (insert_code now email code x rows) =
           [\<lparr>vc_id = next_id rows, vc_email = email, vc_code = code, vc_created_at = now,
             vc_expires_at = x, vc_used = False, vc_used_at = None\<rparr>]"
proof -
  from assms have "filter (matches email code) rows = []" by (simp add: filter_empty_conv)
  then show ?thesis by (simp add: insert_code_def matches_new_row)
qed

text \<open>
  C1. send-code issues a code for an approved email and the store holds no other unused
  row for that email and that code. Then a verify-code request with an email of the same
  normal form and that code, made not later than the \<open>expires_at\<close> of the new row
  against a store that answers, is answered 200 and appends exactly one session; and
  every further verify-code request with the same email and code on the resulting store,
  at any time and whatever the store does, is answered 401 "Invalid verification code"
  and changes nothing.

  The condition on other rows is needed: send-code neither retires older codes nor avoids
  a code that is still open. In the closed instance after the witness the same code is
  issued twice for one address, and the second attempt is answered 200 as well.
\<close>

theorem fresh_code_redeemed_once:
  assumes "email \<noteq> []" and "emailRegex (normalize_email e email)"
    and "normalize_email e email \<in> set (approvedEmails e)"
    and "\<not> insert_fails e" and "rnd < 90000"
    and "\<forall>r \<in> set (verification_codes st).
           \<not> matches (normalize_email e email) (generate_code rnd) r"
    and "email' \<noteq> []" and "normalize_email e' email' = normalize_email e email"
    and "normalize_email e'' email' = normalize_email e email"
    and "\<not> plus_local e now ten_minutes < now'"
    and "\<not> fetch_fails e'" and "\<not> update_fails e'" and "\<not> insert_fails e'"
  shows "snd (verify_code e' now' sid (post_verify email' (generate_code rnd))
                (fst (send_code e now rnd (post_send email) st))) =
           reply 200 (Verified sid (plus_local e' (third_read e') one_day)) \<and>
         sessions (fst (verify_code e' now' sid (post_verify email' (generate_code rnd))
                (fst (send_code e now rnd (post_send email) st)))) =
           sessions st @ [\<lparr>session_id = sid, s_email = normalize_email e email,
                           s_expires_at = plus_local e' (third_read e') one_day,
                           last_accessed = None\<rparr>] \<and>
         verify_code e'' now'' sid'' (post_verify email' (generate_code rnd))
             (fst (verify_code e' now' sid (post_verify email' (generate_code rnd))
                (fst (send_code e now rnd (post_send email) st)))) =
           (fst (verify_code e' now' sid (post_verify email' (generate_code rnd))
                (fst (send_code e now rnd (post_send email) st))),
            reply 401 (Error ''Invalid verification code''))"
proof -
  let ?em = "normalize_email e email"
  let ?code = "generate_code rnd"
  let ?x = "plus_local e now ten_minutes"
  let ?day = "plus_local e' (third_read e') one_day"
  let ?S = "fst (send_code e now rnd (post_send email) st)"
  let ?new = "\<lparr>vc_id = next_id (verification_codes st), vc_email = ?em, vc_code = ?code,
               vc_created_at = now, vc_expires_at = ?x, vc_used = False,
               vc_used_at = None\<rparr>"
  have fmt: "code_format ?code" by (rule code_format_generate_code[OF assms(5)])
  have rows: "verification_codes ?S =
                insert_code now ?em ?code ?x (verification_codes st)"
    by (rule send_code_issues(1)[OF assms(1-4)])
  have sess: "sessions ?S = sessions st" by (rule send_code_issues(2)[OF assms(1-4)])
  have only: "filter (matches ?em ?code) (verification_codes ?S) = [?new]"
    unfolding rows by (rule filter_matches_new[OF assms(6)])
  have found: "find_code e' ?em ?code ?S = Some ?new"
    by (rule find_code_single[OF assms(11) only])
  have fresh: "\<not> vc_expires_at ?new < now'" using assms(10) by simp
  let ?V = "?S\<lparr>verification_codes :=
                 set_used_at (vc_id ?new) (second_read e') (verification_codes ?S),
               sessions := sessions ?S @
                 [\<lparr>session_id = sid, s_email = ?em, s_expires_at = ?day,
                   last_accessed = None\<rparr>]\<rparr>"
  have first: "verify_code e' now' sid (post_verify email' ?code) ?S =
                 (?V, reply 200 (Verified sid ?day))"
    using found
    by (simp only: verify_code_post[OF assms(7) fmt] assms(8) option.case
        redeem_succeeds[OF fresh assms(12,13)])
  have none: "find_code e'' ?em ?code ?V = None"
  proof (rule find_code_None)
    fix r assume "r \<in> set (verification_codes ?V)"
    then have "r \<in> set (set_used_at (vc_id ?new) (second_read e') (verification_codes ?S))"
      by simp
    then show "\<not> matches ?em ?code r" by (rule no_match_after_redemption[OF only])
  qed
  have second: "verify_code e'' now'' sid'' (post_verify email' ?code) ?V =
                  (?V, reply 401 (Error ''Invalid verification code''))"
    using none by (simp only: verify_code_post[OF assms(7) fmt] assms(9) option.case)
  have sessV: "sessions ?V = sessions st @
      [\<lparr>session_id = sid, s_email = ?em, s_expires_at = ?day, last_accessed = None\<rparr>]"
    by (simp add: sess)
  show ?thesis
    unfolding first fst_conv snd_conv
    by (intro conjI refl sessV second)
qed

theorem fresh_code_redeemed_once_witness:
  "emailRegex (normalize_email (working 2000) alice_typed) \<and>
   normalize_email (working 2000) alice_typed \<in> set (approvedEmails (working 2000)) \<and>
   generate_code 4321 = ''14321'' \<and>
   \<not> matches alice ''14321'' (alice_code 1 1000) \<and>
   \<not> plus_local (working 2000) 2000 ten_minutes < 500000 \<and>
   snd (verify_code (working 500000) 500000 ''s1'' (post_verify alice ''14321'')
          (fst (send_code (working 2000) 2000 4321 (post_send alice_typed) one_code))) =
     reply 200 (Verified ''s1'' 86900002) \<and>
   snd (verify_code (working 500100) 500100 ''s2'' (post_verify alice ''14321'')
     (fst (verify_code (working 500000) 500000 ''s1'' (post_verify alice ''14321'')
          (fst (send_code (working 2000) 2000 4321 (post_send alice_typed) one_code))))) =
     reply 401 (Error ''Invalid verification code'')"
proof -
  have norm: "normalize_email (working 2000) alice_typed = alice"
    by (rule normalize_alice_typed)
  have shape: "emailRegex (normalize_email (working 2000) alice_typed)"
    unfolding norm by (simp add: send_eval alice_def utf16_def is_space_def)
  have listed: "normalize_email (working 2000) alice_typed \<in> set (approvedEmails (working 2000))"
    unfolding norm by (simp add: string_eval send_eval working_def alice_def)
  have ins: "\<not> insert_fails (working 2000)" by (simp add: working_def)
  have rnd: "(4321::nat) < 90000" by simp
  have code: "generate_code 4321 = ''14321''" by (simp add: send_eval)
  have other: "\<not> matches alice ''14321'' (alice_code 1 1000)"
    by (simp add: matches_def alice_code_def)
  have unique: "\<forall>r \<in> set (verification_codes one_code).
           \<not> matches (normalize_email (working 2000) alice_typed) (generate_code 4321) r"
    unfolding norm code using other by (simp add: one_code_def)
  have same: "normalize_email (working 500000) alice =
      normalize_email (working 2000) alice_typed"
    unfolding norm by (rule normalize_alice)
  have same2: "normalize_email (working 500100) alice =
      normalize_email (working 2000) alice_typed"
    unfolding norm by (rule normalize_alice)
  have window: "\<not> plus_local (working 2000) 2000 ten_minutes < 500000"
    by (simp add: verify_eval working_def)
  have f: "\<not> fetch_fails (working 500000)" and u: "\<not> update_fails (working 500000)"
    and i: "\<not> insert_fails (working 500000)"
    by (simp_all add: working_def)
  have day: "plus_local (working 500000) (third_read (working 500000)) one_day = 86900002"
    by (simp add: verify_eval working_def)
  note T = fresh_code_redeemed_once[OF alice_typed_present shape listed ins rnd unique
      alice_present same same2 window f u i, of "''s1''" 500100 "''s2''", unfolded code day]
  note a = T[THEN conjunct1]
  have b: "snd (verify_code (working 500100) 500100 ''s2'' (post_verify alice ''14321'')
     (fst (verify_code (working 500000) 500000 ''s1'' (post_verify alice ''14321'')
          (fst (send_code (working 2000) 2000 4321 (post_send alice_typed) one_code))))) =
     reply 401 (Error ''Invalid verification code'')"
    using T[THEN conjunct2, THEN conjunct2] by simp
  show ?thesis by (intro conjI shape listed code other window a b)
qed

theorem same_code_issued_twice_redeems_twice:
  "snd (send_code (working 1000) 1000 2345 (post_send alice) empty_store) =
     reply 200 (CodeSent ''Verification code sent to your email'') \<and>
   snd (send_code (working 2000) 2000 2345 (post_send alice)
     (fst (send_code (working 1000) 1000 2345 (post_send alice) empty_store))) =
     reply 200 (CodeSent ''Verification code sent to your email'') \<and>
   snd (verify_code (working 3000) 3000 ''s1'' (post_verify alice ''12345'') issued_twice) =
     reply 200 (Verified ''s1'' 86403002) \<and>
   snd (verify_code (working 4000) 4000 ''s2'' (post_verify alice ''12345'')
     (fst (verify_code (working 3000) 3000 ''s1'' (post_verify alice ''12345'') issued_twice))) =
     reply 200 (Verified ''s2'' 86404002)"
  by (simp add: issued_twice_def send_code_def verify_code_def post_send_def post_verify_def
      Let_def string_eval send_eval working_def empty_store_def verify_eval alice_def)

lemma handler_is_three_steps:
  assumes "email \<noteq> []" and "code_format code"
    and "c_email c = normalize_email (c_env c) email" and "c_code c = code"
  shows "step c (step c (step c (AtLookup, st))) =
           (Finished (snd (verify_code (c_env c) (c_now c) (c_sessionId c)
                             (post_verify email code) st)),
            fst (verify_code (c_env c) (c_now c) (c_sessionId c) (post_verify email code) st))"
proof (cases "find_code (c_env c) (normalize_email (c_env c) email) code st")
  case None
  then show ?thesis
    by (simp add: verify_code_post[OF assms(1,2)] assms(3,4))
next
  case (Some v)
  show ?thesis
  proof (cases "vc_expires_at v < c_now c")
    case True
    with Some show ?thesis
      by (simp add: verify_code_post[OF assms(1,2)] assms(3,4) redeem_def)
  next
    case False
    with Some show ?thesis
      by (cases "mark_used (c_env c) v st")
        (simp_all add: verify_code_post[OF assms(1,2)] assms(3,4) redeem_def
          split: prod.splits)
  qed
qed

lemma run_after_first_update:
  assumes none: "\<forall>r \<in> set (verification_codes st1). \<not> matches (c_email b) (c_code b) r"
    and ok: "\<not> insert_fails (c_env a)"
    and pb: "pb = AtLookup \<or> pb = Finished (reply 401 (Error ''Invalid verification code''))"
    and pa: "pa = AtInsert \<and> sessions st1 = ss \<or>
             pa = Finished (reply 200 (Verified (c_sessionId a) (plus_local (c_env a) (third_read (c_env a)) one_day))) \<and>
             sessions st1 = ss @ [\<lparr>session_id = c_sessionId a, s_email = c_email a,
                                    s_expires_at = plus_local (c_env a) (third_read (c_env a)) one_day, last_accessed = None\<rparr>]"
  shows "case run a b sched (pa, pb, st1) of
           (pa', pb', st') \<Rightarrow>
             (pb' = AtLookup \<or> pb' = Finished (reply 401 (Error ''Invalid verification code''))) \<and>
             (pa' = AtInsert \<and> sessions st' = ss \<or>
              pa' = Finished (reply 200 (Verified (c_sessionId a) (plus_local (c_env a) (third_read (c_env a)) one_day))) \<and>
              sessions st' = ss @ [\<lparr>session_id = c_sessionId a, s_email = c_email a,
                                     s_expires_at = plus_local (c_env a) (third_read (c_env a)) one_day, last_accessed = None\<rparr>])"
  using none pb pa
proof (induction sched arbitrary: pa pb st1)
  case Nil
  then show ?case by simp
next
  case (Cons first sched)
  show ?case
  proof (cases first)
    case True
    from Cons.prems(3) show ?thesis
    proof
      assume at: "pa = AtInsert \<and> sessions st1 = ss"
      let ?st2 = "st1\<lparr>sessions := sessions st1 @
          [\<lparr>session_id = c_sessionId a, s_email = c_email a,
            s_expires_at = plus_local (c_env a) (third_read (c_env a)) one_day, last_accessed = None\<rparr>]\<rparr>"
      have st: "step a (pa, st1) =
          (Finished (reply 200 (Verified (c_sessionId a) (plus_local (c_env a) (third_read (c_env a)) one_day))), ?st2)"
        using at ok by (simp add: create_session_def Let_def)
      have "case run a b sched
               (Finished (reply 200 (Verified (c_sessionId a) (plus_local (c_env a) (third_read (c_env a)) one_day))), pb, ?st2) of
           (pa', pb', st') \<Rightarrow>
             (pb' = AtLookup \<or> pb' = Finished (reply 401 (Error ''Invalid verification code''))) \<and>
             (pa' = AtInsert \<and> sessions st' = ss \<or>
              pa' = Finished (reply 200 (Verified (c_sessionId a) (plus_local (c_env a) (third_read (c_env a)) one_day))) \<and>
              sessions st' = ss @ [\<lparr>session_id = c_sessionId a, s_email = c_email a,
                                     s_expires_at = plus_local (c_env a) (third_read (c_env a)) one_day, last_accessed = None\<rparr>])"
        using Cons.prems(1,2) at by (intro Cons.IH) simp_all
      then show ?thesis using True st by simp
    next
      assume fin: "pa = Finished (reply 200 (Verified (c_sessionId a) (plus_local (c_env a) (third_read (c_env a)) one_day))) \<and>
             sessions st1 = ss @ [\<lparr>session_id = c_sessionId a, s_email = c_email a,
                                    s_expires_at = plus_local (c_env a) (third_read (c_env a)) one_day, last_accessed = None\<rparr>]"
      then have st: "step a (pa, st1) = (pa, st1)" by simp
      show ?thesis
        using True st Cons.IH[OF Cons.prems] by simp
    qed
  next
    case False
    have look: "find_code (c_env b) (c_email b) (c_code b) st1 = None"
      using Cons.prems(1) by (intro find_code_None) blast
    from Cons.prems(2) have st: "step b (pb, st1) =
        (Finished (reply 401 (Error ''Invalid verification code'')), st1)"
      using look by auto
    have "case run a b sched
               (pa, Finished (reply 401 (Error ''Invalid verification code'')), st1) of
           (pa', pb', st') \<Rightarrow>
             (pb' = AtLookup \<or> pb' = Finished (reply 401 (Error ''Invalid verification code''))) \<and>
             (pa' = AtInsert \<and> sessions st' = ss \<or>
              pa' = Finished (reply 200 (Verified (c_sessionId a) (plus_local (c_env a) (third_read (c_env a)) one_day))) \<and>
              sessions st' = ss @ [\<lparr>session_id = c_sessionId a, s_email = c_email a,
                                     s_expires_at = plus_local (c_env a) (third_read (c_env a)) one_day, last_accessed = None\<rparr>])"
      using Cons.prems(1,3) by (intro Cons.IH) simp_all
    then show ?thesis using False st by simp
  qed
qed

text \<open>
  C2. The update that marks the code used is \<^verbatim>\<open>update(...).eq('id', id)\<close>: it does not
  test \<open>used = false\<close> and returns no previous row. Two invocations for the same email
  and code run on one store, which holds exactly one unused row for them, not expired.
  If the first invocation performs its lookup and its update before the second one's
  lookup, then under every continuation of the schedule the second is still at its lookup
  or has been answered 401 "Invalid verification code", and at most the first one's
  session has been written.

  When both lookups come before both updates, both invocations are answered 200 and two
  sessions are written: the closed instance after the witness.
\<close>

theorem update_before_second_lookup_gives_one_session:
  assumes "c_email a = c_email b" and "c_code a = c_code b"
    and "filter (matches (c_email a) (c_code a)) (verification_codes st) = [v]"
    and "\<not> vc_expires_at v < c_now a"
    and "\<not> fetch_fails (c_env a)" and "\<not> update_fails (c_env a)"
    and "\<not> insert_fails (c_env a)"
  shows "case run a b (True # True # sched) (AtLookup, AtLookup, st) of
           (pa, pb, st') \<Rightarrow>
             (pb = AtLookup \<or> pb = Finished (reply 401 (Error ''Invalid verification code''))) \<and>
             (pa = AtInsert \<and> sessions st' = sessions st \<or>
              pa = Finished (reply 200 (Verified (c_sessionId a) (plus_local (c_env a) (third_read (c_env a)) one_day))) \<and>
              sessions st' = sessions st @
                [\<lparr>session_id = c_sessionId a, s_email = c_email a,
                  s_expires_at = plus_local (c_env a) (third_read (c_env a)) one_day, last_accessed = None\<rparr>])"
proof -
  let ?st1 = "st\<lparr>verification_codes := set_used_at (vc_id v) (second_read (c_env a))
      (verification_codes st)\<rparr>"
  have found: "find_code (c_env a) (c_email a) (c_code a) st = Some v"
    by (rule find_code_single[OF assms(5,3)])
  have two: "run a b (True # True # sched) (AtLookup, AtLookup, st) =
               run a b sched (AtInsert, AtLookup, ?st1)"
    using found assms(4,6) by (simp add: mark_used_def)
  have none: "\<forall>r \<in> set (verification_codes ?st1). \<not> matches (c_email b) (c_code b) r"
    using no_match_after_redemption[OF assms(3)] assms(1,2) by simp
  show ?thesis
    unfolding two
    by (rule run_after_first_update[OF none assms(7)]) simp_all
qed

theorem update_before_second_lookup_gives_one_session_witness:
  "filter (matches (c_email first_call) (c_code first_call)) (verification_codes one_code) =
     [alice_code 1 1000] \<and>
   run first_call second_call [True, True, False, True, False] (AtLookup, AtLookup, one_code) =
     (Finished (reply 200 (Verified ''s1'' 86402002)),
      Finished (reply 401 (Error ''Invalid verification code'')),
      \<lparr>verification_codes = [(alice_code 1 1000)\<lparr>vc_used := True, vc_used_at := Some 2001\<rparr>],
       sessions = [\<lparr>session_id = ''s1'', s_email = alice, s_expires_at = 86402002,
                    last_accessed = None\<rparr>],
       outbox = []\<rparr>)"
proof -
  have em: "c_email first_call = c_email second_call"
    and co: "c_code first_call = c_code second_call"
    by (simp_all add: first_call_def second_call_def)
  have only: "filter (matches (c_email first_call) (c_code first_call))
                (verification_codes one_code) = [alice_code 1 1000]"
    by (simp add: first_call_def one_code_def alice_code_def matches_def)
  have fresh: "\<not> vc_expires_at (alice_code 1 1000) < c_now first_call"
    by (simp add: alice_code_def first_call_def)
  have f: "\<not> fetch_fails (c_env first_call)" and u: "\<not> update_fails (c_env first_call)"
    and i: "\<not> insert_fails (c_env first_call)"
    by (simp_all add: first_call_def working_def)
  have ran: "run first_call second_call [True, True, False, True, False]
               (AtLookup, AtLookup, one_code) =
     (Finished (reply 200 (Verified ''s1'' 86402002)),
      Finished (reply 401 (Error ''Invalid verification code'')),
      \<lparr>verification_codes = [(alice_code 1 1000)\<lparr>vc_used := True, vc_used_at := Some 2001\<rparr>],
       sessions = [\<lparr>session_id = ''s1'', s_email = alice, s_expires_at = 86402002,
                    last_accessed = None\<rparr>],
       outbox = []\<rparr>)"
    by (simp add: first_call_def second_call_def working_def one_code_def alice_code_def verify_eval Let_def)
  note T = update_before_second_lookup_gives_one_session[OF em co only fresh f u i,
      of "[False, True, False]"]
  from T ran show ?thesis using only by simp
qed

theorem racing_calls_both_get_sessions:
  "run first_call second_call [True, False, True, False, True, False]
     (AtLookup, AtLookup, one_code) =
     (Finished (reply 200 (Verified ''s1'' 86402002)),
      Finished (reply 200 (Verified ''s2'' 86402003)),
      \<lparr>verification_codes = [(alice_code 1 1000)\<lparr>vc_used := True, vc_used_at := Some 2002\<rparr>],
       sessions = [\<lparr>session_id = ''s1'', s_email = alice, s_expires_at = 86402002,
                    last_accessed = None\<rparr>,
                   \<lparr>session_id = ''s2'', s_email = alice, s_expires_at = 86402003,
                    last_accessed = None\<rparr>],
       outbox = []\<rparr>)"
  by (simp add: first_call_def second_call_def working_def one_code_def alice_code_def verify_eval Let_def)

end
